theory Spec2Isabelle
  imports Main "HOL-Library.Sublist" "HOL-Library.Monad_Syntax"
begin

section \<open>Strings of the analysed program\<close>

text \<open>
  Source texts and diagnostic fields are JavaScript strings. They are modelled as
  \<open>string\<close>, a list of characters, each character a code unit below 256 (the ASCII
  range and the Latin-1 supplement). Case mapping, white space and the character
  classes of the regular expressions are those of the language on that range.
\<close>

text \<open>The capital letters of the Latin-1 supplement (U+00C0 to U+00DE without the
  multiplication sign U+00D7) and their small letters, 32 code units further on.\<close>

definition latin1_upper :: string where
  "latin1_upper =
     [CHR 0xC0, CHR 0xC1, CHR 0xC2, CHR 0xC3, CHR 0xC4, CHR 0xC5, CHR 0xC6, CHR 0xC7,
      CHR 0xC8, CHR 0xC9, CHR 0xCA, CHR 0xCB, CHR 0xCC, CHR 0xCD, CHR 0xCE, CHR 0xCF,
      CHR 0xD0, CHR 0xD1, CHR 0xD2, CHR 0xD3, CHR 0xD4, CHR 0xD5, CHR 0xD6, CHR 0xD8,
      CHR 0xD9, CHR 0xDA, CHR 0xDB, CHR 0xDC, CHR 0xDD, CHR 0xDE]"

definition latin1_lower :: string where
  "latin1_lower =
     [CHR 0xE0, CHR 0xE1, CHR 0xE2, CHR 0xE3, CHR 0xE4, CHR 0xE5, CHR 0xE6, CHR 0xE7,
      CHR 0xE8, CHR 0xE9, CHR 0xEA, CHR 0xEB, CHR 0xEC, CHR 0xED, CHR 0xEE, CHR 0xEF,
      CHR 0xF0, CHR 0xF1, CHR 0xF2, CHR 0xF3, CHR 0xF4, CHR 0xF5, CHR 0xF6, CHR 0xF8,
      CHR 0xF9, CHR 0xFA, CHR 0xFB, CHR 0xFC, CHR 0xFD, CHR 0xFE]"

definition toLowerChar :: "char \<Rightarrow> char" where
  "toLowerChar c =
     (case map_of (zip (''ABCDEFGHIJKLMNOPQRSTUVWXYZ'' @ latin1_upper)
                       (''abcdefghijklmnopqrstuvwxyz'' @ latin1_lower)) c of
        Some d \<Rightarrow> d
      | None \<Rightarrow> c)"

definition toLowerCase :: "string \<Rightarrow> string" where
  "toLowerCase s = map toLowerChar s"

text \<open>\<open>s.includes(sub)\<close>: \<open>sub\<close> occurs in \<open>s\<close> as a contiguous run.\<close>

definition str_includes :: "string \<Rightarrow> string \<Rightarrow> bool" where
  "str_includes s sub = sublist sub s"

text \<open>\<open>(v || '')\<close> for a field that is a string or missing.\<close>

definition or_empty :: "string option \<Rightarrow> string" where
  "or_empty v = (case v of None \<Rightarrow> [] | Some s \<Rightarrow> s)"

section \<open>Diagnostics\<close>

text \<open>
  A security diagnostic as \<open>runSlither\<close> and \<open>detectManualVulnerabilities\<close> build it.
  The fields taken from the external tool's output (\<open>name\<close>, \<open>description\<close>,
  \<open>severity\<close>, \<open>confidence\<close>, \<open>line\<close>) may be missing; \<open>func\<close> is the field
  \<open>function\<close>, which always has a value (\<open>'N/A'\<close> by default), as has the field
  \<open>file\<close> (here \<open>filename\<close>).
\<close>

record bug =
  name :: "string option"
  description :: "string option"
  severity :: "string option"
  confidence :: "string option"
  line :: "int option"
  func :: string
  filename :: string

text \<open>A style diagnostic as \<open>runSolhint\<close> and \<open>detectBasicLintingIssues\<close> build it.\<close>

record issue =
  rule :: "string option"
  severity :: "string option"
  message :: "string option"
  line :: "int option"
  column :: "int option"

section \<open>Risk score and audit grade\<close>

text \<open>The body of the first \<open>forEach\<close> of \<open>computeRiskScore\<close>: one security diagnostic.\<close>

definition slither_step :: "bug \<Rightarrow> int \<Rightarrow> int" where
  "slither_step b score =
     (let sev = toLowerCase (or_empty (bug.severity b)) in
      if sev = ''high'' then score + 25
      else if sev = ''medium'' then score + 15
      else if sev = ''low'' then score + 5
      else if sev = ''informational'' then score + 1
      else score)"

text \<open>The body of the second \<open>forEach\<close>: one style diagnostic.\<close>

definition solhint_step :: "issue \<Rightarrow> int \<Rightarrow> int" where
  "solhint_step i score =
     (let sev = toLowerCase (or_empty (issue.severity i)) in
      if sev = ''error'' then score + 3
      else if sev = ''warning'' then score + 1
      else score)"

definition computeRiskScore :: "bug list \<Rightarrow> issue list \<Rightarrow> int" where
  "computeRiskScore slitherResults solhintResults =
     (let score = fold slither_step slitherResults 0;
          score = fold solhint_step solhintResults score
      in min 100 (max 0 score))"

text \<open>\<open>(bug.name || '').toLowerCase()\<close>\<close>

definition lower_name :: "bug \<Rightarrow> string" where
  "lower_name b = toLowerCase (or_empty (name b))"

definition computeAuditGrade :: "int \<Rightarrow> bug list \<Rightarrow> issue list \<Rightarrow> string" where
  "computeAuditGrade riskScore slitherResults solhintResults =
     (let hasProxyUpgradeable =
            list_ex (\<lambda>b. str_includes (lower_name b) ''proxy''
                        \<or> str_includes (lower_name b) ''upgradeable'') slitherResults;
          hasUnrestrictedMint =
            list_ex (\<lambda>b. str_includes (lower_name b) ''mint''
                        \<or> str_includes (lower_name b) ''unrestricted'') slitherResults;
          hasKillSwitch =
            list_ex (\<lambda>b. str_includes (lower_name b) ''suicide''
                        \<or> str_includes (lower_name b) ''selfdestruct'') slitherResults
      in if hasProxyUpgradeable \<or> hasUnrestrictedMint \<or> hasKillSwitch \<or> riskScore > 70
         then ''C''
         else if riskScore > 40 then ''B''
         else ''A'')"

subsection \<open>The grading and scoring rules in the specification's words\<close>

definition escalation_markers :: "string list" where
  "escalation_markers =
     [''proxy'', ''upgradeable'', ''mint'', ''unrestricted'', ''suicide'', ''selfdestruct'']"

text \<open>
  \<open>contains_ci s m\<close>: some contiguous run of \<open>s\<close> equals \<open>m\<close> up to the case of its
  letters.
\<close>

definition contains_ci :: "string \<Rightarrow> string \<Rightarrow> bool" where
  "contains_ci s m = (\<exists>u. sublist u s \<and> toLowerCase u = toLowerCase m)"

definition spec_grade :: "int \<Rightarrow> bug list \<Rightarrow> string" where
  "spec_grade score bugs =
     (if score > 70 \<or> (\<exists>b \<in> set bugs. \<exists>m \<in> set escalation_markers. contains_ci (or_empty (name b)) m)
      then ''C''
      else if score > 40 then ''B''
      else ''A'')"

text \<open>
  The weight of a security severity and of a style severity. A severity is recognised
  whatever the case of its letters; a missing or unrecognised one weighs nothing.
\<close>

definition spec_security_weight :: "string option \<Rightarrow> int" where
  "spec_security_weight sev =
     (case sev of
        None \<Rightarrow> 0
      | Some s \<Rightarrow>
          if toLowerCase s = ''high'' then 25
          else if toLowerCase s = ''medium'' then 15
          else if toLowerCase s = ''low'' then 5
          else if toLowerCase s = ''informational'' then 1
          else 0)"

definition spec_style_weight :: "string option \<Rightarrow> int" where
  "spec_style_weight sev =
     (case sev of
        None \<Rightarrow> 0
      | Some s \<Rightarrow>
          if toLowerCase s = ''error'' then 3
          else if toLowerCase s = ''warning'' then 1
          else 0)"

definition spec_score :: "bug list \<Rightarrow> issue list \<Rightarrow> int" where
  "spec_score bugs issues =
     min 100 (max 0 (sum_list (map (\<lambda>b. spec_security_weight (bug.severity b)) bugs)
                   + sum_list (map (\<lambda>i. spec_style_weight (issue.severity i)) issues)))"

section \<open>Heuristic detectors and auxiliary facts\<close>

text \<open>White space as \<open>trim\<close> and \<open>\s\<close> see it, among the code units below 256: tab,
  line feed, vertical tab, form feed, carriage return, space and the no-break space
  U+00A0.\<close>

definition is_space :: "char \<Rightarrow> bool" where
  "is_space c =
     (c \<in> set [CHR 0x09, CHR 0x0A, CHR 0x0B, CHR 0x0C, CHR 0x0D, CHR '' '', CHR 0xA0])"

definition trim :: "string \<Rightarrow> string" where
  "trim s = rev (dropWhile is_space (rev (dropWhile is_space s)))"

text \<open>\<open>s.split(c)\<close> for a one-character separator; \<open>cur\<close> holds the piece being read,
  reversed.\<close>

fun split_acc :: "char \<Rightarrow> string \<Rightarrow> string \<Rightarrow> string list" where
  "split_acc c cur [] = [rev cur]"
| "split_acc c cur (x # xs) =
     (if x = c then rev cur # split_acc c [] xs else split_acc c (x # cur) xs)"

definition split_on :: "char \<Rightarrow> string \<Rightarrow> string list" where
  "split_on c s = split_acc c [] s"

definition endsWith :: "string \<Rightarrow> char \<Rightarrow> bool" where
  "endsWith s c = (s \<noteq> [] \<and> last s = c)"

definition manual_bug :: "string \<Rightarrow> string \<Rightarrow> string \<Rightarrow> string \<Rightarrow> bug" where
  "manual_bug n d sev conf =
     \<lparr>name = Some n, description = Some d, severity = Some sev, confidence = Some conf,
      line = Some 1, func = ''Multiple'', filename = ''contract.sol''\<rparr>"

definition detectManualVulnerabilities :: "string \<Rightarrow> bug list" where
  "detectManualVulnerabilities sourceCode =
     (let lowerCode = toLowerCase sourceCode in
      (if str_includes lowerCode ''call'' \<and> str_includes lowerCode ''external''
          \<and> \<not> str_includes lowerCode ''reentrancyguard''
       then [manual_bug ''Potential Reentrancy''
               ''External calls without reentrancy protection detected'' ''High'' ''Medium'']
       else [])
      @ (if str_includes lowerCode ''call'' \<and> \<not> str_includes lowerCode ''require''
            \<and> \<not> str_includes lowerCode ''assert''
         then [manual_bug ''Unchecked External Call''
                 ''External calls without proper error handling'' ''Medium'' ''Medium'']
         else [])
      @ (if str_includes lowerCode ''uint'' \<and> \<not> str_includes lowerCode ''pragma solidity ^0.8''
            \<and> \<not> str_includes lowerCode ''pragma solidity 0.8''
         then [manual_bug ''Potential Integer Overflow''
                 ''Integer operations without overflow protection (pre-Solidity 0.8.0)''
                 ''Medium'' ''High'']
         else [])
      @ (if str_includes lowerCode ''delegatecall''
         then [manual_bug ''Dangerous Delegatecall''
                 ''Delegatecall detected - potential for code injection'' ''High'' ''High'']
         else [])
      @ (if str_includes lowerCode ''tx.origin''
         then [manual_bug ''tx.origin Usage''
                 ''tx.origin used instead of msg.sender - potential phishing vulnerability''
                 ''Medium'' ''High'']
         else [])
      @ (if str_includes lowerCode ''block.timestamp''
         then [manual_bug ''Block Timestamp Dependency''
                 ''Block timestamp used - vulnerable to miner manipulation'' ''Low'' ''High'']
         else [])
      @ (if str_includes lowerCode ''function'' \<and> str_includes lowerCode ''external''
            \<and> \<not> str_includes lowerCode ''modifier'' \<and> \<not> str_includes lowerCode ''onlyowner''
         then [manual_bug ''Potential Access Control Issue''
                 ''External functions without access control modifiers'' ''Medium'' ''Low'']
         else [])
      @ (if str_includes lowerCode ''selfdestruct'' \<or> str_includes lowerCode ''suicide''
         then [manual_bug ''Self-Destruct Function''
                 ''Contract can be destroyed - potential loss of funds'' ''High'' ''High'']
         else []))"

definition lint_issue :: "string \<Rightarrow> string \<Rightarrow> nat \<Rightarrow> nat \<Rightarrow> issue" where
  "lint_issue r m ln col =
     \<lparr>rule = Some r, severity = Some ''warning'', message = Some m,
      line = Some (int ln), column = Some (int col)\<rparr>"

text \<open>The body of the \<open>forEach\<close> of \<open>detectBasicLintingIssues\<close>, for the line at
  \<open>index\<close>. \<open>lines[index + 1]\<close> is missing past the end, and an empty string is falsy.\<close>

definition lint_line :: "string list \<Rightarrow> nat \<Rightarrow> issue list" where
  "lint_line lines index =
     (let ln = lines ! index;
          trimmedLine = trim ln;
          next_blank = (index + 1 < length lines \<and> lines ! (index + 1) \<noteq> []
                        \<and> trim (lines ! (index + 1)) = [])
      in (if index = 0 \<and> \<not> str_includes trimmedLine ''SPDX-License-Identifier''
          then [lint_issue ''spdx-license-identifier'' ''Missing SPDX license identifier''
                  (index + 1) 1]
          else [])
       @ (if length trimmedLine > 120
          then [lint_issue ''max-line-length'' ''Line too long (max 120 characters)''
                  (index + 1) 1]
          else [])
       @ (if trimmedLine = [] \<and> next_blank
          then [lint_issue ''no-consecutive-blank-lines'' ''Multiple consecutive blank lines''
                  (index + 1) 1]
          else [])
       @ (if endsWith ln CHR '' '' \<or> endsWith ln CHR 0x09
          then [lint_issue ''no-trailing-whitespace'' ''Trailing whitespace''
                  (index + 1) (length ln)]
          else []))"

definition detectBasicLintingIssues :: "string \<Rightarrow> issue list" where
  "detectBasicLintingIssues sourceCode =
     (let lines = split_on CHR 0x0A sourceCode
      in concat (map (lint_line lines) [0 ..< length lines]))"

definition detectTokenType :: "string \<Rightarrow> string" where
  "detectTokenType sourceCode =
     (let lowerCode = toLowerCase sourceCode in
      if str_includes lowerCode ''erc20'' \<or> str_includes lowerCode ''ierc20'' then ''ERC20''
      else if str_includes lowerCode ''erc721'' \<or> str_includes lowerCode ''ierc721'' then ''ERC721''
      else if str_includes lowerCode ''erc1155'' \<or> str_includes lowerCode ''ierc1155''
        then ''ERC1155''
      else if str_includes lowerCode ''uniswap'' \<or> str_includes lowerCode ''pancakeswap''
              \<or> str_includes lowerCode ''amm'' then ''DeFi''
      else if str_includes lowerCode ''governance'' \<or> str_includes lowerCode ''dao''
        then ''Governance''
      else if str_includes lowerCode ''nft'' \<or> str_includes lowerCode ''token'' then ''Token''
      else ''Custom'')"

definition detectUnsafePatterns :: "string \<Rightarrow> string list" where
  "detectUnsafePatterns sourceCode =
     (let lowerCode = toLowerCase sourceCode in
      (if str_includes lowerCode ''selfdestruct'' \<or> str_includes lowerCode ''suicide''
       then [''Kill Switch - Contract can be destroyed''] else [])
      @ (if str_includes lowerCode ''delegatecall''
         then [''Delegate Call - Potential for code injection''] else [])
      @ (if str_includes lowerCode ''assembly''
         then [''Assembly Code - Low-level operations''] else [])
      @ (if str_includes lowerCode ''tx.origin''
         then [''tx.origin Usage - Potential phishing vulnerability''] else [])
      @ (if str_includes lowerCode ''block.timestamp''
         then [''Block Timestamp - Time manipulation risk''] else [])
      @ (if str_includes lowerCode ''block.number''
         then [''Block Number - Block manipulation risk''] else []))"

text \<open>What a call can throw: a \<open>TypeError\<close> of the language (a method called on a
  missing value), or a fault of the file system.\<close>

datatype js_error = TypeError | IOError

text \<open>
  The two deployment warnings. \<open>HighSeverityIssues n\<close> stands for the text
  "n high severity issues found" behind a warning sign, \<open>CriticalVulnerabilities\<close> for
  "Critical security vulnerabilities detected" behind an alarm sign.
\<close>

datatype warning = HighSeverityIssues nat | CriticalVulnerabilities

definition is_critical_name :: "string \<Rightarrow> bool" where
  "is_critical_name n =
     (str_includes n ''reentrancy'' \<or> str_includes n ''overflow''
      \<or> str_includes n ''access-control'')"

text \<open>The second \<open>filter\<close> of \<open>generateDeploymentWarnings\<close>: its callback calls
  \<open>bug.name.includes\<close>, which throws on a diagnostic that has no name.\<close>

fun filter_critical :: "bug list \<Rightarrow> js_error + bug list" where
  "filter_critical [] = Inr []"
| "filter_critical (b # bs) =
     (case name b of
        None \<Rightarrow> Inl TypeError
      | Some n \<Rightarrow>
          (case filter_critical bs of
             Inl e \<Rightarrow> Inl e
           | Inr r \<Rightarrow> Inr (if is_critical_name n then b # r else r)))"

definition generateDeploymentWarnings :: "bug list \<Rightarrow> issue list \<Rightarrow> js_error + warning list" where
  "generateDeploymentWarnings slitherResults solhintResults =
     (let highSeverityBugs = filter (\<lambda>b. bug.severity b = Some ''High'') slitherResults;
          warnings = (if length highSeverityBugs > 0
                      then [HighSeverityIssues (length highSeverityBugs)] else [])
      in case filter_critical slitherResults of
           Inl e \<Rightarrow> Inl e
         | Inr criticalBugs \<Rightarrow>
             Inr (warnings @ (if length criticalBugs > 0 then [CriticalVulnerabilities] else [])))"

section \<open>Regular expressions\<close>

text \<open>
  The source scans the text with regular expressions. The fragment it uses is modelled:
  literals, character classes, greedy \<open>*\<close> and \<open>+\<close> over a class, sequence,
  alternation, the greedy optional group, capture groups and \<open>$\<close> (no flag \<open>m\<close>:
  the end of the input).
\<close>

datatype cls = Space | Word | OneOf string | NoneOf string

definition is_word :: "char \<Rightarrow> bool" where
  "is_word c = (c \<in> set ''ABCDEFGHIJKLMNOPQRSTUVWXYZabcdefghijklmnopqrstuvwxyz0123456789_'')"

fun in_cls :: "cls \<Rightarrow> char \<Rightarrow> bool" where
  "in_cls Space c = is_space c"
| "in_cls Word c = is_word c"
| "in_cls (OneOf s) c = (c \<in> set s)"
| "in_cls (NoneOf s) c = (c \<notin> set s)"

datatype rx = Lit string | Cls cls | Star cls | Plus cls | Seq rx rx | Alt rx rx | Opt rx
  | Cap nat rx | Eoi

type_synonym caps = "(nat \<times> string) list"

text \<open>
  \<open>rx_matches r s c\<close> lists every way \<open>r\<close> can match at the start of \<open>s\<close>, as the text
  left over and the captures (the latest first), in the order in which a backtracking
  matcher tries them: the longest repetition first, the left alternative first, the
  optional group taken before it is skipped. The head of the list is the match that
  the matcher returns.
\<close>

fun rx_matches :: "rx \<Rightarrow> string \<Rightarrow> caps \<Rightarrow> (string \<times> caps) list" where
  "rx_matches (Lit l) s c = (if prefix l s then [(drop (length l) s, c)] else [])"
| "rx_matches (Cls k) s c =
     (case s of [] \<Rightarrow> [] | x # xs \<Rightarrow> if in_cls k x then [(xs, c)] else [])"
| "rx_matches (Star k) s c =
     map (\<lambda>n. (drop n s, c)) (rev [0 ..< Suc (length (takeWhile (in_cls k) s))])"
| "rx_matches (Plus k) s c =
     map (\<lambda>n. (drop n s, c)) (rev [1 ..< Suc (length (takeWhile (in_cls k) s))])"
| "rx_matches (Seq a b) s c = concat (map (\<lambda>(s', c'). rx_matches b s' c') (rx_matches a s c))"
| "rx_matches (Alt a b) s c = rx_matches a s c @ rx_matches b s c"
| "rx_matches (Opt a) s c = rx_matches a s c @ [(s, c)]"
| "rx_matches (Cap i a) s c =
     map (\<lambda>(s', c'). (s', (i, take (length s - length s') s) # c')) (rx_matches a s c)"
| "rx_matches Eoi s c = (if s = [] then [(s, c)] else [])"

fun seqs :: "rx list \<Rightarrow> rx" where
  "seqs [] = Lit []"
| "seqs [r] = r"
| "seqs (r # rs) = Seq r (seqs rs)"

fun alts :: "string list \<Rightarrow> rx" where
  "alts [] = Lit []"
| "alts [l] = Lit l"
| "alts (l # ls) = Alt (Lit l) (alts ls)"

text \<open>The least number of characters a match of \<open>r\<close> consumes.\<close>

fun rx_min_len :: "rx \<Rightarrow> nat" where
  "rx_min_len (Lit l) = length l"
| "rx_min_len (Cls k) = 1"
| "rx_min_len (Star k) = 0"
| "rx_min_len (Plus k) = 1"
| "rx_min_len (Seq a b) = rx_min_len a + rx_min_len b"
| "rx_min_len (Alt a b) = min (rx_min_len a) (rx_min_len b)"
| "rx_min_len (Opt a) = 0"
| "rx_min_len (Cap i a) = rx_min_len a"
| "rx_min_len Eoi = 0"

text \<open>A match object: \<open>match.index\<close>, the index just past the match, and the groups.\<close>

record rmatch =
  m_index :: nat
  m_end :: nat
  m_groups :: caps

definition group :: "rmatch \<Rightarrow> nat \<Rightarrow> string option" where
  "group m i = map_of (m_groups m) i"

text \<open>The leftmost match in \<open>s\<close>, the text from index \<open>k\<close> on.\<close>

fun rx_find :: "rx \<Rightarrow> nat \<Rightarrow> string \<Rightarrow> rmatch option" where
  "rx_find r k [] =
     (case rx_matches r [] [] of
        (rest, c) # _ \<Rightarrow> Some \<lparr>m_index = k, m_end = k, m_groups = c\<rparr>
      | [] \<Rightarrow> None)"
| "rx_find r k (x # t) =
     (case rx_matches r (x # t) [] of
        (rest, c) # _ \<Rightarrow>
          Some \<lparr>m_index = k, m_end = k + (length (x # t) - length rest), m_groups = c\<rparr>
      | [] \<Rightarrow> rx_find r (Suc k) t)"

text \<open>\<open>regex.exec(src)\<close> of an expression with the flag \<open>g\<close> whose \<open>lastIndex\<close> is
  given: the search starts there, and the caller sets \<open>lastIndex\<close> to \<open>m_end\<close>.\<close>

definition rx_exec :: "rx \<Rightarrow> string \<Rightarrow> nat \<Rightarrow> rmatch option" where
  "rx_exec r src lastIndex =
     (if lastIndex > length src then None else rx_find r lastIndex (drop lastIndex src))"

text \<open>
  The loop \<open>while ((match = regex.exec(src)) !== null) { ... }\<close>, collecting the
  matches. An empty match leaves \<open>lastIndex\<close> where it is, and the loop of the source
  then never ends: the value is \<open>None\<close>.
\<close>

partial_function (option) exec_loop :: "rx \<Rightarrow> string \<Rightarrow> nat \<Rightarrow> rmatch list option" where
  "exec_loop r src lastIndex =
     (case rx_exec r src lastIndex of
        None \<Rightarrow> Some []
      | Some m \<Rightarrow> Option.bind (exec_loop r src (m_end m)) (\<lambda>rest. Some (m # rest)))"

declare exec_loop.simps [code]

text \<open>\<open>s.substring(a, b)\<close>: both indices are clamped to the string and swapped when
  out of order.\<close>

definition substring :: "string \<Rightarrow> int \<Rightarrow> int \<Rightarrow> string" where
  "substring s a b =
     (let n = int (length s);
          a' = max 0 (min a n);
          b' = max 0 (min b n);
          lo = min a' b';
          hi = max a' b'
      in take (nat (hi - lo)) (drop (nat lo) s))"

section \<open>Structural extractor\<close>

definition quotes :: string where
  "quotes = [CHR 0x27, CHR 0x22]"

definition type_words :: "string list" where
  "type_words = [''uint'', ''int'', ''bool'', ''address'', ''string'', ''bytes'', ''mapping'']"

definition importRegex :: rx where
  "importRegex = seqs [Lit ''import'', Plus Space, Cls (OneOf quotes),
     Cap 1 (Plus (NoneOf quotes)), Cls (OneOf quotes)]"

definition functionRegex :: rx where
  "functionRegex = seqs [Lit ''function'', Plus Space, Cap 1 (Plus Word), Star Space,
     Lit ''('', Star (NoneOf '')''), Lit '')'', Star Space,
     Opt (alts [''external'', ''public'', ''internal'', ''private'']), Star Space,
     Opt (alts [''view'', ''pure'', ''payable'']), Star Space,
     Opt (seqs [Lit ''returns'', Star Space, Lit ''('', Star (NoneOf '')''), Lit '')'']),
     Star Space, Lit ''{'']"

definition modifierRegex :: rx where
  "modifierRegex = seqs [Lit ''modifier'', Plus Space, Cap 1 (Plus Word), Star Space,
     Lit ''('', Star (NoneOf '')''), Lit '')'', Star Space, Lit ''{'']"

definition stateVarRegex :: rx where
  "stateVarRegex = seqs [alts type_words, Plus Space,
     Opt (alts [''public'', ''private'', ''internal'', ''external'']), Star Space,
     Cap 1 (Plus Word), Star Space, Lit '';'']"

definition eventRegex :: rx where
  "eventRegex = seqs [Lit ''event'', Plus Space, Cap 1 (Plus Word), Star Space,
     Lit ''('', Star (NoneOf '')''), Lit '')'']"

text \<open>\<open>/(uint|int|bool|address|string|bytes|mapping)\s*[^;]*$/\<close>, used by
  \<open>extractVariableType\<close> and \<open>getVariableType\<close>.\<close>

definition typeRegex :: rx where
  "typeRegex = seqs [Cap 1 (alts type_words), Star Space, Star (NoneOf '';''), Eoi]"

definition extractVisibility :: "string \<Rightarrow> nat \<Rightarrow> string" where
  "extractVisibility sourceCode index =
     (let beforeMatch = substring sourceCode (max 0 (int index - 50)) (int index) in
      if str_includes beforeMatch ''public'' then ''public''
      else if str_includes beforeMatch ''private'' then ''private''
      else if str_includes beforeMatch ''internal'' then ''internal''
      else if str_includes beforeMatch ''external'' then ''external''
      else ''internal'')"

definition extractFunctionType :: "string \<Rightarrow> nat \<Rightarrow> string" where
  "extractFunctionType sourceCode index =
     (let beforeMatch = substring sourceCode (max 0 (int index - 50)) (int index) in
      if str_includes beforeMatch ''view'' then ''view''
      else if str_includes beforeMatch ''pure'' then ''pure''
      else if str_includes beforeMatch ''payable'' then ''payable''
      else ''non-payable'')"

text \<open>\<open>beforeMatch.match(typeRegex)\<close>, without the flag \<open>g\<close>: the leftmost match.\<close>

definition extractVariableType :: "string \<Rightarrow> nat \<Rightarrow> string" where
  "extractVariableType sourceCode index =
     (let beforeMatch = substring sourceCode (max 0 (int index - 100)) (int index) in
      case rx_exec typeRegex beforeMatch 0 of
        Some typeMatch \<Rightarrow> or_empty (group typeMatch 1)
      | None \<Rightarrow> ''unknown'')"

record func_decl =
  fname :: string
  visibility :: string
  ftype :: string

record var_decl =
  vname :: string
  vtype :: string

text \<open>The inventory. A modifier and an event are objects with the one field \<open>name\<close>,
  kept here as that name; \<open>functionDecls\<close> is the field \<open>functions\<close> and
  \<open>importPaths\<close> the field \<open>imports\<close>.\<close>

record contract_details =
  functionDecls :: "func_decl list"
  modifiers :: "string list"
  stateVariables :: "var_decl list"
  events :: "string list"
  importPaths :: "string list"

text \<open>\<open>match[1]\<close>: group 1 takes part in every match of the expressions below.\<close>

definition match1 :: "rmatch \<Rightarrow> string" where
  "match1 m = or_empty (group m 1)"

definition extractContractDetails :: "string \<Rightarrow> contract_details option" where
  "extractContractDetails sourceCode =
     do {
       ims \<leftarrow> exec_loop importRegex sourceCode 0;
       fms \<leftarrow> exec_loop functionRegex sourceCode 0;
       mms \<leftarrow> exec_loop modifierRegex sourceCode 0;
       vms \<leftarrow> exec_loop stateVarRegex sourceCode 0;
       ems \<leftarrow> exec_loop eventRegex sourceCode 0;
       Some \<lparr>functionDecls =
               map (\<lambda>m. \<lparr>fname = match1 m,
                         visibility = extractVisibility sourceCode (m_index m),
                         ftype = extractFunctionType sourceCode (m_index m)\<rparr>) fms,
             modifiers = map match1 mms,
             stateVariables =
               map (\<lambda>m. \<lparr>vname = match1 m,
                         vtype = extractVariableType sourceCode (m_index m)\<rparr>) vms,
             events = map match1 ems,
             importPaths = map match1 ims\<rparr>
     }"

section \<open>Interface synthesizer\<close>

record param =
  ptype :: string
  pname :: string
  internalType :: string
  indexed :: "bool option"

datatype abi_entry =
    AbiFunction (abi_name: string) (inputs: "param list") (outputs: "param list")
      (stateMutability: string)
  | AbiEvent (abi_name: string) (inputs: "param list") (anonymous: bool)

text \<open>\<open>/function\s+(\w+)\s*\(([^)]*)\)\s*(?:external|public|internal|private)?\s*(?:view|pure|payable)?\s*(?:returns\s*\(([^)]*)\))?/g\<close>\<close>

definition abiFunctionRegex :: rx where
  "abiFunctionRegex = seqs [Lit ''function'', Plus Space, Cap 1 (Plus Word), Star Space,
     Lit ''('', Cap 2 (Star (NoneOf '')'')), Lit '')'', Star Space,
     Opt (alts [''external'', ''public'', ''internal'', ''private'']), Star Space,
     Opt (alts [''view'', ''pure'', ''payable'']), Star Space,
     Opt (seqs [Lit ''returns'', Star Space, Lit ''('', Cap 3 (Star (NoneOf '')'')), Lit '')''])]"

definition abiEventRegex :: rx where
  "abiEventRegex = seqs [Lit ''event'', Plus Space, Cap 1 (Plus Word), Star Space,
     Lit ''('', Cap 2 (Star (NoneOf '')'')), Lit '')'']"

definition abiStateVarRegex :: rx where
  "abiStateVarRegex = seqs [alts type_words, Plus Space, Lit ''public'', Star Space,
     Cap 1 (Plus Word), Star Space, Lit '';'']"

text \<open>\<open>s.replace(pat, rep)\<close> with a string pattern: the first occurrence only.\<close>

fun replace_first :: "string \<Rightarrow> string \<Rightarrow> string \<Rightarrow> string" where
  "replace_first pat rep [] = (if pat = [] then rep else [])"
| "replace_first pat rep (x # xs) =
     (if prefix pat (x # xs) then rep @ drop (length pat) (x # xs)
      else x # replace_first pat rep xs)"

text \<open>\<open>s.split(/\s+/)\<close>; \<open>cur\<close> holds the piece being read, reversed.\<close>

function split_ws_acc :: "string \<Rightarrow> string \<Rightarrow> string list" where
  "split_ws_acc cur [] = [rev cur]"
| "split_ws_acc cur (x # xs) =
     (if is_space x then rev cur # split_ws_acc [] (dropWhile is_space xs)
      else split_ws_acc (x # cur) xs)"
  by pat_completeness auto
termination
  by (relation "measure (\<lambda>(cur, s). length s)") (auto simp: length_dropWhile_le less_Suc_eq_le)

definition split_ws :: "string \<Rightarrow> string list" where
  "split_ws s = split_ws_acc [] s"

text \<open>The callback of \<open>map\<close> in \<open>parseFunctionParams\<close>; \<open>None\<close> is the \<open>null\<close> that
  \<open>filter(Boolean)\<close> removes.\<close>

definition parse_param :: "string \<Rightarrow> param option" where
  "parse_param p =
     (let trimmed = trim p in
      if trimmed = [] then None
      else
        let isIndexed = str_includes trimmed ''indexed'';
            cleanParam = trim (replace_first ''indexed'' [] trimmed);
            parts = split_ws cleanParam;
            ty = (case parts of [] \<Rightarrow> [] | t # _ \<Rightarrow> t);
            nm = (case parts of _ # n # _ \<Rightarrow> n | _ \<Rightarrow> [])
        in Some \<lparr>ptype = ty, pname = nm, internalType = ty, indexed = Some isIndexed\<rparr>)"

definition parseFunctionParams :: "string \<Rightarrow> param list" where
  "parseFunctionParams params =
     (if params = [] \<or> trim params = [] then []
      else List.map_filter parse_param (split_on CHR '','' params))"

definition parseEventParams :: "string \<Rightarrow> param list" where
  "parseEventParams params = parseFunctionParams params"

definition getStateMutability :: "string \<Rightarrow> nat \<Rightarrow> string" where
  "getStateMutability sourceCode index =
     (let beforeMatch = substring sourceCode (max 0 (int index - 100)) (int index) in
      if str_includes beforeMatch ''pure'' then ''pure''
      else if str_includes beforeMatch ''view'' then ''view''
      else if str_includes beforeMatch ''payable'' then ''payable''
      else ''nonpayable'')"

definition getVariableType :: "string \<Rightarrow> nat \<Rightarrow> string" where
  "getVariableType sourceCode index =
     (let beforeMatch = substring sourceCode (max 0 (int index - 100)) (int index) in
      case rx_exec typeRegex beforeMatch 0 of
        Some typeMatch \<Rightarrow> or_empty (group typeMatch 1)
      | None \<Rightarrow> ''uint256'')"

text \<open>The body of the first loop of \<open>generateManualABI\<close>: the entry pushed for one
  match of \<open>abiFunctionRegex\<close>, or nothing where the source says \<open>continue\<close>.\<close>

definition abi_function_entry :: "string \<Rightarrow> rmatch \<Rightarrow> abi_entry list" where
  "abi_function_entry sourceCode m =
     (let functionName = match1 m;
          params = or_empty (group m 2);
          returns = group m 3
      in if functionName = ''constructor''
            \<or> str_includes (substring sourceCode (int (m_index m) - 50) (int (m_index m)))
                 ''internal''
         then []
         else [AbiFunction functionName (parseFunctionParams params)
                 (case returns of
                    None \<Rightarrow> []
                  | Some r \<Rightarrow> if r = [] then [] else parseFunctionParams r)
                 (getStateMutability sourceCode (m_index m))])"

definition abi_event_entry :: "rmatch \<Rightarrow> abi_entry" where
  "abi_event_entry m = AbiEvent (match1 m) (parseEventParams (or_empty (group m 2))) False"

definition abi_accessor_entry :: "string \<Rightarrow> rmatch \<Rightarrow> abi_entry" where
  "abi_accessor_entry sourceCode m =
     (let varName = match1 m;
          varType = getVariableType sourceCode (m_index m)
      in AbiFunction varName []
           [\<lparr>ptype = varType, pname = [], internalType = varType, indexed = None\<rparr>] ''view'')"

text \<open>\<open>generateManualABI\<close>. Its \<open>try\<close> block holds nothing that throws on a string, so
  the \<open>catch\<close> branch (the empty list) is never taken; \<open>lines\<close> and \<open>pragmaVersion\<close> are
  computed and not used.\<close>

definition generateManualABI :: "string \<Rightarrow> abi_entry list option" where
  "generateManualABI sourceCode =
     do {
       fms \<leftarrow> exec_loop abiFunctionRegex sourceCode 0;
       ems \<leftarrow> exec_loop abiEventRegex sourceCode 0;
       vms \<leftarrow> exec_loop abiStateVarRegex sourceCode 0;
       Some (concat (map (abi_function_entry sourceCode) fms)
             @ map abi_event_entry ems
             @ map (abi_accessor_entry sourceCode) vms)
     }"

section \<open>The analysis\<close>

text \<open>
  What one run of the analysis meets outside the program: the list \<open>runSlither\<close>
  resolves to and the list \<open>runSolhint\<close> resolves to (empty when the tool is absent,
  fails, times out or prints nothing usable), the interface the compiler yields
  (\<open>None\<close> when it throws or finds no contract), whether a summarizer client is
  configured and what it answers, whether writing or removing the temporary file
  fails, and the clock.
\<close>

record env =
  slitherOut :: "bug list"
  solhintOut :: "issue list"
  compiled :: "abi_entry list option"
  openai :: bool
  summaryOut :: "string option"
  writeFails :: bool
  removeFails :: bool
  now :: string

text \<open>The file system: the content of each path that exists.\<close>

type_synonym fs = "string \<Rightarrow> string option"

definition contractFile :: string where
  "contractFile = ''../temp/contract.sol''"

record analysis =
  riskScore :: int
  auditGrade :: string
  tokenType :: string
  bugs :: "bug list"
  linting :: "issue list"
  contractDetails :: contract_details
  aiSummary :: "string option"
  abi :: "abi_entry list"
  unsafePatterns :: "string list"
  deploymentWarnings :: "warning list"
  timestamp :: string

definition generateABI :: "env \<Rightarrow> string \<Rightarrow> abi_entry list option" where
  "generateABI e sourceCode =
     (case compiled e of
        Some a \<Rightarrow> Some a
      | None \<Rightarrow> generateManualABI sourceCode)"

text \<open>
  \<open>analyzeContract\<close>, with the file system passed through. The result is \<open>None\<close> when a
  scanning loop does not end; otherwise it is the file system left behind together
  with the analysis record or the error thrown (the \<open>catch\<close> block logs and rethrows).
\<close>

definition analyzeContract ::
  "env \<Rightarrow> fs \<Rightarrow> string \<Rightarrow> bool \<Rightarrow> ((js_error + analysis) \<times> fs) option" where
  "analyzeContract e files sourceCode useOpenAI =
     (if writeFails e then Some (Inl IOError, files)
      else
        let files1 = files(contractFile \<mapsto> sourceCode);
            slitherResults = slitherOut e;
            solhintResults = solhintOut e
        in case extractContractDetails sourceCode of
             None \<Rightarrow> None
           | Some details \<Rightarrow>
              (let finalSlitherResults =
                     (if length slitherResults = 0 then detectManualVulnerabilities sourceCode
                      else slitherResults);
                   finalSolhintResults =
                     (if length solhintResults = 0 then detectBasicLintingIssues sourceCode
                      else solhintResults);
                   score = computeRiskScore finalSlitherResults finalSolhintResults;
                   grade = computeAuditGrade score finalSlitherResults finalSolhintResults;
                   token = detectTokenType sourceCode;
                   summary = (if useOpenAI \<and> openai e then summaryOut e else None)
               in (case generateABI e sourceCode of
                    None \<Rightarrow> None
                  | Some a \<Rightarrow>
                      (case generateDeploymentWarnings finalSlitherResults finalSolhintResults of
                         Inl err \<Rightarrow> Some (Inl err, files1)
                       | Inr warnings \<Rightarrow>
                           if removeFails e then Some (Inl IOError, files1)
                           else Some (Inr \<lparr>riskScore = score, auditGrade = grade,
                                            tokenType = token, bugs = finalSlitherResults,
                                            linting = finalSolhintResults,
                                            contractDetails = details, aiSummary = summary,
                                            abi = a,
                                            unsafePatterns = detectUnsafePatterns sourceCode,
                                            deploymentWarnings = warnings, timestamp = now e\<rparr>,
                                      files1(contractFile := None))))))"

subsection \<open>The route \<open>POST /api/analyze\<close>\<close>

datatype response =
    Status400 string
  | Status200 analysis
  | Status500 js_error

text \<open>The handler. \<open>sourceCode\<close> is the field of the request body, \<open>None\<close> when it is
  missing; \<open>!sourceCode\<close> holds of a missing field and of the empty string.\<close>

definition analyze_route ::
  "env \<Rightarrow> fs \<Rightarrow> string option \<Rightarrow> bool \<Rightarrow> (response \<times> fs) option" where
  "analyze_route e files sourceCode useOpenAI =
     (if or_empty sourceCode = [] then Some (Status400 ''Source code is required'', files)
      else
        case analyzeContract e files (or_empty sourceCode) useOpenAI of
          None \<Rightarrow> None
        | Some (Inr a, files') \<Rightarrow> Some (Status200 a, files')
        | Some (Inl err, files') \<Rightarrow> Some (Status500 err, files'))"

text \<open>The two lists \<open>analyzeContract\<close> goes on with after the fallback.\<close>

definition final_bugs :: "env \<Rightarrow> string \<Rightarrow> bug list" where
  "final_bugs e src = (if slitherOut e = [] then detectManualVulnerabilities src else slitherOut e)"

definition final_linting :: "env \<Rightarrow> string \<Rightarrow> issue list" where
  "final_linting e src =
     (if solhintOut e = [] then detectBasicLintingIssues src else solhintOut e)"

section \<open>Concrete runs\<close>

text \<open>A run in which both external tools yield nothing and the compiler path fails,
  so that every fallback is taken.\<close>

definition fallback_env :: env where
  "fallback_env =
     \<lparr>slitherOut = [], solhintOut = [], compiled = None, openai = False, summaryOut = None,
      writeFails = False, removeFails = False, now = ''2024-01-01T00:00:00.000Z''\<rparr>"

text \<open>A run in which the security tool reports one detector that has a name, and the
  style tool nothing.\<close>

definition slither_env :: env where
  "slither_env =
     fallback_env\<lparr>slitherOut :=
       [\<lparr>name = Some ''reentrancy-eth'', description = Some ''Reentrancy in withdraw()'',
         severity = Some ''High'', confidence = Some ''Medium'', line = Some 7,
         func = ''withdraw'', filename = ''contract.sol''\<rparr>]\<rparr>"

text \<open>A run in which the security tool reports a detector whose output has elements
  and no field \<open>check\<close>: the diagnostic built from it has no name.\<close>

definition nameless_env :: env where
  "nameless_env =
     fallback_env\<lparr>slitherOut :=
       [\<lparr>name = None, description = Some ''unnamed finding'', severity = Some ''Low'',
         confidence = Some ''Low'', line = Some 3, func = ''N/A'',
         filename = ''contract.sol''\<rparr>]\<rparr>"

text \<open>A run in which the style tool reports one message, and the security tool
  nothing.\<close>

definition solhint_env :: env where
  "solhint_env =
     fallback_env\<lparr>solhintOut :=
       [\<lparr>rule = Some ''no-empty-blocks'', severity = Some ''Warning'',
         message = Some ''Code contains empty blocks'', line = Some 1, column = Some 30\<rparr>]\<rparr>"

definition withdraw_src :: string where
  "withdraw_src = ''function withdraw() external { token.call(...) }''"

definition kill_src :: string where
  "kill_src = ''contract C { function kill() public { selfdestruct(owner); } }''"

text \<open>The declaration of the scenario, a few characters after a state variable that is
  declared \<open>internal\<close>.\<close>

definition internal_src :: string where
  "internal_src =
     ''contract V { uint internal total; function withdraw() external { token.call(...) } }''"

text \<open>The declaration of the scenario after a comment whose parenthesis is left open.\<close>

definition swallow_src :: string where
  "swallow_src = ''// function f (todo'' @ [CHR 0x0A] @ withdraw_src"

text \<open>
  \<open>runs_over sourceCode p\<close>: one of the matches that the first loop of
  \<open>generateManualABI\<close> finds starts before index \<open>p\<close> and ends after it. The loop goes
  on from the end of that match, so it finds no match that starts at \<open>p\<close>.
\<close>

definition runs_over :: "string \<Rightarrow> nat \<Rightarrow> bool" where
  "runs_over sourceCode p =
     (case exec_loop abiFunctionRegex sourceCode 0 of
        None \<Rightarrow> False
      | Some ms \<Rightarrow> list_ex (\<lambda>m. m_index m < p \<and> p < m_end m) ms)"


definition manual_names :: "string list" where
  "manual_names =
     [''Potential Reentrancy'', ''Unchecked External Call'', ''Potential Integer Overflow'',
      ''Dangerous Delegatecall'', ''tx.origin Usage'', ''Block Timestamp Dependency'',
      ''Potential Access Control Issue'', ''Self-Destruct Function'']"

section \<open>Properties of the scorer and the grader\<close>

lemma toLowerCase_append: "toLowerCase (a @ b) = toLowerCase a @ toLowerCase b"
  by (simp add: toLowerCase_def)

lemma toLowerCase_Nil: "toLowerCase [] = []"
  by (simp add: toLowerCase_def)

lemma sublist_toLowerCase:
  "sublist m (toLowerCase s) \<longleftrightarrow> (\<exists>u. sublist u s \<and> toLowerCase u = m)"
proof
  assume "sublist m (toLowerCase s)"
  then obtain ps ss where "map toLowerChar s = ps @ m @ ss"
    by (auto simp: sublist_def toLowerCase_def)
  then obtain a b where s: "s = a @ b" and "map toLowerChar b = m @ ss"
    by (metis map_eq_append_conv)
  then obtain u c where b: "b = u @ c" and "map toLowerChar u = m"
    by (metis map_eq_append_conv)
  then have "sublist u s \<and> toLowerCase u = m"
    using s by (auto simp: sublist_def toLowerCase_def)
  then show "\<exists>u. sublist u s \<and> toLowerCase u = m" ..
next
  assume "\<exists>u. sublist u s \<and> toLowerCase u = m"
  then obtain u ps ss where "s = ps @ u @ ss" and "toLowerCase u = m"
    by (auto simp: sublist_def)
  then have "toLowerCase s = toLowerCase ps @ m @ toLowerCase ss"
    by (simp add: toLowerCase_append)
  then show "sublist m (toLowerCase s)"
    unfolding sublist_def by blast
qed

lemma includes_lower_ci:
  "toLowerCase m = m \<Longrightarrow> str_includes (toLowerCase s) m \<longleftrightarrow> contains_ci s m"
  by (simp add: str_includes_def contains_ci_def sublist_toLowerCase)

lemma markers_lower:
  "toLowerCase ''proxy'' = ''proxy''"
  "toLowerCase ''upgradeable'' = ''upgradeable''"
  "toLowerCase ''mint'' = ''mint''"
  "toLowerCase ''unrestricted'' = ''unrestricted''"
  "toLowerCase ''suicide'' = ''suicide''"
  "toLowerCase ''selfdestruct'' = ''selfdestruct''"
  by code_simp+

lemma has_marker_iff:
  "(\<exists>m \<in> set escalation_markers. contains_ci (or_empty (name b)) m) \<longleftrightarrow>
     (str_includes (lower_name b) ''proxy'' \<or> str_includes (lower_name b) ''upgradeable''
      \<or> str_includes (lower_name b) ''mint'' \<or> str_includes (lower_name b) ''unrestricted''
      \<or> str_includes (lower_name b) ''suicide'' \<or> str_includes (lower_name b) ''selfdestruct'')"
  unfolding escalation_markers_def lower_name_def
  by (simp add: includes_lower_ci markers_lower)

lemma grade_refines_spec: "computeAuditGrade score bgs iss = spec_grade score bgs"
proof -
  let ?esc = "\<exists>b \<in> set bgs. \<exists>m \<in> set escalation_markers. contains_ci (or_empty (name b)) m"
  have "?esc \<longleftrightarrow>
      (list_ex (\<lambda>b. str_includes (lower_name b) ''proxy''
                  \<or> str_includes (lower_name b) ''upgradeable'') bgs
       \<or> list_ex (\<lambda>b. str_includes (lower_name b) ''mint''
                  \<or> str_includes (lower_name b) ''unrestricted'') bgs
       \<or> list_ex (\<lambda>b. str_includes (lower_name b) ''suicide''
                  \<or> str_includes (lower_name b) ''selfdestruct'') bgs)"
    unfolding has_marker_iff list_ex_iff by blast
  then show ?thesis
    unfolding computeAuditGrade_def spec_grade_def Let_def by auto
qed

lemma spec_grade_no_bugs_70: "spec_grade 70 [] = ''B''"
  by (simp add: spec_grade_def)

text \<open>
  C1. For every risk score and every list of security diagnostics (style diagnostics
  play no part), the grade computed by \<open>computeAuditGrade\<close> is the one the
  specification describes: C when the score exceeds 70 or some security diagnostic's
  name contains, up to letter case, one of proxy, upgradeable, mint, unrestricted,
  suicide, selfdestruct; otherwise B when the score exceeds 40; otherwise A. A score
  of 71 gives C whatever the diagnostics; a score of 70 with no diagnostics gives B;
  a marker in a name gives C at score 0.
\<close>

theorem computeAuditGrade_spec:
  "computeAuditGrade score bgs iss = spec_grade score bgs
   \<and> computeAuditGrade 71 bgs iss = ''C''
   \<and> computeAuditGrade 70 [] iss = ''B''
   \<and> computeAuditGrade 0
        [\<lparr>name = Some ''Unrestricted-MINT'', description = None, severity = None,
          confidence = None, line = None, func = ''N/A'', filename = ''contract.sol''\<rparr>] iss = ''C''"
proof -
  have 1: "computeAuditGrade score bgs iss = spec_grade score bgs"
    by (rule grade_refines_spec)
  have 2: "computeAuditGrade 71 bgs iss = ''C''"
    by (simp add: grade_refines_spec spec_grade_def)
  have 3: "computeAuditGrade 70 [] iss = ''B''"
    by (simp add: grade_refines_spec spec_grade_no_bugs_70)
  have "str_includes (toLowerCase ''Unrestricted-MINT'') ''mint''"
    by code_simp
  then have 4: "computeAuditGrade 0
        [\<lparr>name = Some ''Unrestricted-MINT'', description = None, severity = None,
          confidence = None, line = None, func = ''N/A'', filename = ''contract.sol''\<rparr>] iss = ''C''"
    by (simp add: computeAuditGrade_def lower_name_def or_empty_def)
  from 1 2 3 4 show ?thesis by blast
qed

lemma fold_slither_step:
  "fold slither_step bgs a = a + sum_list (map (\<lambda>b. spec_security_weight (bug.severity b)) bgs)"
proof (induction bgs arbitrary: a)
  case Nil
  then show ?case by simp
next
  case (Cons b bgs)
  have "slither_step b a = a + spec_security_weight (bug.severity b)"
    by (cases "bug.severity b")
       (simp_all add: slither_step_def spec_security_weight_def or_empty_def toLowerCase_Nil Let_def)
  with Cons show ?case by simp
qed

lemma fold_solhint_step:
  "fold solhint_step iss a = a + sum_list (map (\<lambda>i. spec_style_weight (issue.severity i)) iss)"
proof (induction iss arbitrary: a)
  case Nil
  then show ?case by simp
next
  case (Cons i iss)
  have "solhint_step i a = a + spec_style_weight (issue.severity i)"
    by (cases "issue.severity i")
       (simp_all add: solhint_step_def spec_style_weight_def or_empty_def toLowerCase_Nil Let_def)
  with Cons show ?case by simp
qed

lemma score_as_sum: "computeRiskScore bgs iss = spec_score bgs iss"
  by (simp add: computeRiskScore_def spec_score_def fold_slither_step fold_solhint_step Let_def)

lemma security_weight_nonneg: "0 \<le> spec_security_weight s"
  by (simp add: spec_security_weight_def split: option.splits)

lemma style_weight_nonneg: "0 \<le> spec_style_weight s"
  by (simp add: spec_style_weight_def split: option.splits)

text \<open>
  C2. For every pair of diagnostic lists, the risk score is the sum of the weights
  of the security diagnostics (High 25, Medium 15, Low 5, Informational 1) and of
  the style diagnostics (Error 3, Warning 1), a missing or unrecognised severity
  weighing 0, clamped to the interval from 0 to 100. The sum is not divided by
  anything: four High diagnostics already give 100, and so do five.
\<close>

theorem computeRiskScore_spec:
  "computeRiskScore bgs iss =
     min 100 (max 0 (sum_list (map (\<lambda>b. spec_security_weight (bug.severity b)) bgs)
                   + sum_list (map (\<lambda>i. spec_style_weight (issue.severity i)) iss)))
   \<and> spec_security_weight (Some ''High'') = 25
   \<and> spec_security_weight (Some ''Medium'') = 15
   \<and> spec_security_weight (Some ''Low'') = 5
   \<and> spec_security_weight (Some ''Informational'') = 1
   \<and> spec_style_weight (Some ''Error'') = 3
   \<and> spec_style_weight (Some ''Warning'') = 1
   \<and> spec_security_weight None = 0 \<and> spec_style_weight None = 0
   \<and> spec_security_weight (Some ''Critical'') = 0 \<and> spec_style_weight (Some ''Info'') = 0"
proof -
  have "computeRiskScore bgs iss =
     min 100 (max 0 (sum_list (map (\<lambda>b. spec_security_weight (bug.severity b)) bgs)
                   + sum_list (map (\<lambda>i. spec_style_weight (issue.severity i)) iss)))"
    using score_as_sum [of bgs iss] by (simp add: spec_score_def)
  moreover have "spec_security_weight (Some ''High'') = 25"
    "spec_security_weight (Some ''Medium'') = 15"
    "spec_security_weight (Some ''Low'') = 5"
    "spec_security_weight (Some ''Informational'') = 1"
    "spec_style_weight (Some ''Error'') = 3"
    "spec_style_weight (Some ''Warning'') = 1"
    "spec_security_weight None = 0" "spec_style_weight None = 0"
    "spec_security_weight (Some ''Critical'') = 0" "spec_style_weight (Some ''Info'') = 0"
    by code_simp+
  ultimately show ?thesis by blast
qed

text \<open>
  C6. Appending one more diagnostic to either list, the others unchanged, never
  lowers the risk score, and the score always lies between 0 and 100.
\<close>

theorem computeRiskScore_monotone_bounded:
  "computeRiskScore bgs iss \<le> computeRiskScore (bgs @ [b]) iss
   \<and> computeRiskScore bgs iss \<le> computeRiskScore bgs (iss @ [i])
   \<and> 0 \<le> computeRiskScore bgs iss
   \<and> computeRiskScore bgs iss \<le> 100"
proof -
  have "0 \<le> spec_security_weight (bug.severity b)" "0 \<le> spec_style_weight (issue.severity i)"
    by (rule security_weight_nonneg, rule style_weight_nonneg)
  then show ?thesis
    unfolding score_as_sum spec_score_def by (simp add: min_def max_def)
qed

section \<open>Totality of the scanning loops\<close>

lemma rx_matches_len:
  "(rest, c') \<in> set (rx_matches r s c) \<Longrightarrow> length rest + rx_min_len r \<le> length s"
proof (induction r arbitrary: s c rest c')
  case (Lit l)
  then show ?case by (auto simp: prefix_def split: if_splits)
next
  case (Cls k)
  then show ?case by (auto split: list.splits if_splits)
next
  case (Star k)
  then show ?case by auto
next
  case (Plus k)
  then obtain n where n: "1 \<le> n" "n \<le> length (takeWhile (in_cls k) s)" "rest = drop n s"
    by auto
  have "length (takeWhile (in_cls k) s) \<le> length s"
    by (rule length_takeWhile_le)
  with n show ?case by simp
next
  case (Seq a b)
  then obtain s1 c1 where 1: "(s1, c1) \<in> set (rx_matches a s c)"
    and 2: "(rest, c') \<in> set (rx_matches b s1 c1)"
    by auto
  from Seq.IH(1) [OF 1] Seq.IH(2) [OF 2] show ?case by simp
next
  case (Alt a b)
  then show ?case by (auto simp: min_def dest: Alt.IH)
next
  case (Opt a)
  then show ?case by (auto dest: Opt.IH)
next
  case (Cap i a)
  then show ?case by (auto dest: Cap.IH)
next
  case Eoi
  then show ?case by (auto split: if_splits)
qed

lemma rx_find_bounds:
  "rx_find r k s = Some m \<Longrightarrow>
     k \<le> m_index m \<and> m_index m + rx_min_len r \<le> m_end m \<and> m_end m \<le> k + length s"
proof (induction s arbitrary: k)
  case Nil
  then obtain rest c where "(rest, c) \<in> set (rx_matches r [] [])"
    "m = \<lparr>m_index = k, m_end = k, m_groups = c\<rparr>"
    by (auto split: list.splits)
  with rx_matches_len [of rest c r "[]" "[]"] show ?case by simp
next
  case (Cons x t)
  show ?case
  proof (cases "rx_matches r (x # t) []")
    case Nil
    with Cons.prems have "rx_find r (Suc k) t = Some m" by simp
    from Cons.IH [OF this] show ?thesis by simp
  next
    case (Cons p ps)
    obtain rest c where p: "p = (rest, c)" by (cases p)
    with Cons Cons.prems
    have m: "m = \<lparr>m_index = k, m_end = k + (length (x # t) - length rest), m_groups = c\<rparr>"
      by simp
    have "(rest, c) \<in> set (rx_matches r (x # t) [])"
      using Cons p by simp
    from rx_matches_len [OF this] m show ?thesis by simp
  qed
qed

lemma rx_exec_bounds:
  assumes "rx_exec r src i = Some m"
  shows "i \<le> m_index m \<and> m_index m + rx_min_len r \<le> m_end m \<and> m_end m \<le> length src"
proof -
  from assms have i: "i \<le> length src" and f: "rx_find r i (drop i src) = Some m"
    by (auto simp: rx_exec_def split: if_splits)
  from rx_find_bounds [OF f] i show ?thesis by simp
qed

text \<open>An expression that cannot match the empty string makes the loop advance, so
  the loop ends.\<close>

lemma exec_loop_total:
  assumes "0 < rx_min_len r"
  shows "\<exists>ms. exec_loop r src i = Some ms"
proof (induction "Suc (length src) - i" arbitrary: i rule: less_induct)
  case less
  show ?case
  proof (cases "rx_exec r src i")
    case None
    then show ?thesis by (subst exec_loop.simps) simp
  next
    case (Some m)
    from rx_exec_bounds [OF Some] assms
    have "i < m_end m" "m_end m \<le> length src" by simp_all
    then have "Suc (length src) - m_end m < Suc (length src) - i" by simp
    from less [OF this] obtain ms where "exec_loop r src (m_end m) = Some ms" ..
    with Some show ?thesis by (subst exec_loop.simps) simp
  qed
qed

lemma min_len_regexes:
  "0 < rx_min_len importRegex" "0 < rx_min_len functionRegex" "0 < rx_min_len modifierRegex"
  "0 < rx_min_len stateVarRegex" "0 < rx_min_len eventRegex"
  "0 < rx_min_len abiFunctionRegex" "0 < rx_min_len abiEventRegex"
  "0 < rx_min_len abiStateVarRegex"
  by (simp_all add: importRegex_def functionRegex_def modifierRegex_def stateVarRegex_def
      eventRegex_def abiFunctionRegex_def abiEventRegex_def abiStateVarRegex_def type_words_def)

lemma extract_total: "\<exists>d. extractContractDetails src = Some d"
proof -
  obtain a b c d e where "exec_loop importRegex src 0 = Some a"
    "exec_loop functionRegex src 0 = Some b" "exec_loop modifierRegex src 0 = Some c"
    "exec_loop stateVarRegex src 0 = Some d" "exec_loop eventRegex src 0 = Some e"
    using exec_loop_total min_len_regexes by metis
  then show ?thesis by (simp add: extractContractDetails_def)
qed

lemma manualABI_total: "\<exists>a. generateManualABI src = Some a"
proof -
  obtain a b c where "exec_loop abiFunctionRegex src 0 = Some a"
    "exec_loop abiEventRegex src 0 = Some b" "exec_loop abiStateVarRegex src 0 = Some c"
    using exec_loop_total min_len_regexes by metis
  then show ?thesis by (simp add: generateManualABI_def)
qed

lemma generateABI_total: "\<exists>a. generateABI e src = Some a"
  using manualABI_total [of src] by (auto simp: generateABI_def split: option.splits)

section \<open>The analysis as a whole\<close>

lemma analyzeContract_Inr:
  assumes "analyzeContract e f src u = Some (Inr a, g)"
  shows "bugs a = final_bugs e src" "linting a = final_linting e src"
    "extractContractDetails src = Some (contractDetails a)"
    "generateABI e src = Some (abi a)"
    "riskScore a = computeRiskScore (bugs a) (linting a)"
    "auditGrade a = computeAuditGrade (riskScore a) (bugs a) (linting a)"
    "unsafePatterns a = detectUnsafePatterns src"
    "generateDeploymentWarnings (bugs a) (linting a) = Inr (deploymentWarnings a)"
    "g = (f(contractFile \<mapsto> src))(contractFile := None)"
    "\<not> writeFails e" "\<not> removeFails e"
  using assms unfolding analyzeContract_def Let_def final_bugs_def final_linting_def
  by (auto split: if_splits option.splits sum.splits)

lemma analyzeContract_Inl:
  assumes "analyzeContract e f src u = Some (Inl err, g)"
  shows "(writeFails e \<and> g = f) \<or> (\<not> writeFails e \<and> g = f(contractFile \<mapsto> src))"
  using assms unfolding analyzeContract_def Let_def
  by (auto split: if_splits option.splits sum.splits)

lemma analyzeContract_total: "\<exists>r g. analyzeContract e f src u = Some (r, g)"
proof -
  obtain d where d: "extractContractDetails src = Some d" using extract_total by blast
  obtain a where a: "generateABI e src = Some a" using generateABI_total by blast
  show ?thesis
    unfolding analyzeContract_def Let_def
    by (simp add: d a split: sum.splits)
qed

lemma manual_name_cases:
  "b \<in> set (detectManualVulnerabilities src) \<Longrightarrow> \<exists>n \<in> set manual_names. name b = Some n"
  unfolding detectManualVulnerabilities_def Let_def manual_names_def manual_bug_def
  by (auto split: if_splits)


lemma filter_critical_named:
  "\<forall>b \<in> set bs. name b \<noteq> None \<Longrightarrow>
     filter_critical bs = Inr (filter (\<lambda>b. is_critical_name (the (name b))) bs)"
  by (induction bs) (auto split: option.splits)

lemma final_bugs_named:
  assumes "\<forall>b \<in> set (slitherOut e). name b \<noteq> None"
  shows "\<forall>b \<in> set (final_bugs e src). name b \<noteq> None"
proof (cases "slitherOut e = []")
  case True
  then have "final_bugs e src = detectManualVulnerabilities src"
    by (simp add: final_bugs_def)
  then show ?thesis using manual_name_cases [of _ src] by fastforce
next
  case False
  then show ?thesis using assms by (simp add: final_bugs_def)
qed

text \<open>When the file can be written and removed and every diagnostic of the security
  tool has a name, the analysis returns its record.\<close>

lemma analyze_succeeds:
  assumes "\<not> writeFails e" "\<not> removeFails e" "\<forall>b \<in> set (slitherOut e). name b \<noteq> None"
  shows "\<exists>a g. analyzeContract e f src u = Some (Inr a, g)"
proof -
  obtain d where d: "extractContractDetails src = Some d" using extract_total by blast
  obtain a where a: "generateABI e src = Some a" using generateABI_total by blast
  have "\<exists>ws. generateDeploymentWarnings (final_bugs e src) (final_linting e src) = Inr ws"
    by (simp add: generateDeploymentWarnings_def Let_def
        filter_critical_named [OF final_bugs_named [OF assms(3)]])
  then obtain ws
    where "generateDeploymentWarnings (final_bugs e src) (final_linting e src) = Inr ws" ..
  then show ?thesis
    using assms(1,2) unfolding analyzeContract_def Let_def final_bugs_def final_linting_def
    by (simp add: d a)
qed

lemma concrete_envs_ok:
  "\<not> writeFails fallback_env" "\<not> removeFails fallback_env"
  "\<forall>b \<in> set (slitherOut fallback_env). name b \<noteq> None"
  "slitherOut fallback_env = []" "solhintOut fallback_env = []" "compiled fallback_env = None"
  "\<not> writeFails slither_env" "\<not> removeFails slither_env"
  "\<forall>b \<in> set (slitherOut slither_env). name b \<noteq> None"
  "slitherOut slither_env \<noteq> []" "solhintOut slither_env = []"
  "\<not> writeFails solhint_env" "\<not> removeFails solhint_env"
  "\<forall>b \<in> set (slitherOut solhint_env). name b \<noteq> None"
  "slitherOut solhint_env = []" "solhintOut solhint_env \<noteq> []"
  by (simp_all add: fallback_env_def slither_env_def solhint_env_def)

text \<open>
  C3. In the record an analysis returns, the security diagnostics are the external
  tool's list, exactly, when that list is not empty, and exactly the heuristic
  detector's list when it is empty; the same holds of the style diagnostics. The two
  sources are never merged.
\<close>

theorem fallback_replaces_not_merges:
  assumes "analyzeContract e f src u = Some (Inr a, g)"
  shows "(slitherOut e \<noteq> [] \<longrightarrow> bugs a = slitherOut e)
       \<and> (slitherOut e = [] \<longrightarrow> bugs a = detectManualVulnerabilities src)
       \<and> (solhintOut e \<noteq> [] \<longrightarrow> linting a = solhintOut e)
       \<and> (solhintOut e = [] \<longrightarrow> linting a = detectBasicLintingIssues src)"
  using analyzeContract_Inr(1,2) [OF assms] by (simp add: final_bugs_def final_linting_def)

theorem fallback_replaces_not_merges_witness:
  "(\<exists>a g. analyzeContract slither_env Map.empty withdraw_src False = Some (Inr a, g)
      \<and> bugs a = slitherOut slither_env \<and> linting a = detectBasicLintingIssues withdraw_src)
   \<and> (\<exists>a g. analyzeContract solhint_env Map.empty withdraw_src False = Some (Inr a, g)
      \<and> bugs a = detectManualVulnerabilities withdraw_src \<and> linting a = solhintOut solhint_env)"
proof -
  from analyze_succeeds [OF concrete_envs_ok(7,8,9)] obtain a g
    where r: "analyzeContract slither_env Map.empty withdraw_src False = Some (Inr a, g)"
    by blast
  from analyze_succeeds [OF concrete_envs_ok(12,13,14)] obtain a' g'
    where r': "analyzeContract solhint_env Map.empty withdraw_src False = Some (Inr a', g')"
    by blast
  from fallback_replaces_not_merges [OF r] concrete_envs_ok(10,11)
  have 1: "bugs a = slitherOut slither_env \<and> linting a = detectBasicLintingIssues withdraw_src"
    by blast
  from fallback_replaces_not_merges [OF r'] concrete_envs_ok(15,16)
  have 2: "bugs a' = detectManualVulnerabilities withdraw_src \<and> linting a' = solhintOut solhint_env"
    by blast
  from r r' 1 2 show ?thesis by blast
qed

subsection \<open>The temporary file\<close>

lemma cleanup_on_success:
  "analyzeContract e f src u = Some (Inr a, g) \<Longrightarrow> g contractFile = None"
  by (drule analyzeContract_Inr(9)) simp

text \<open>Once the file is written, every run that ends in an error leaves it behind.\<close>

lemma no_cleanup_on_failure:
  "analyzeContract e f src u = Some (Inl err, g) \<Longrightarrow> \<not> writeFails e
     \<Longrightarrow> g contractFile = Some src"
  by (drule analyzeContract_Inl) auto

text \<open>
  C5. The specification asks that the temporary file be deleted on the failure paths
  too. In the run below the security tool reports a diagnostic without a name;
  \<open>generateDeploymentWarnings\<close> throws on it, after the file was written and before
  \<open>fs.remove\<close> is reached: the analysis ends in the error and the file is still there.
\<close>

theorem temp_file_left_behind:
  "\<exists>g. analyzeContract nameless_env Map.empty ''contract C {}'' False = Some (Inl TypeError, g)
     \<and> g contractFile = Some ''contract C {}''"
proof -
  obtain d where d: "extractContractDetails ''contract C {}'' = Some d"
    using extract_total by blast
  obtain a where a: "generateABI nameless_env ''contract C {}'' = Some a"
    using generateABI_total by blast
  have w: "\<not> writeFails nameless_env" and n: "length (slitherOut nameless_env) \<noteq> 0"
    by (simp_all add: nameless_env_def fallback_env_def)
  have t: "generateDeploymentWarnings (slitherOut nameless_env) l = Inl TypeError" for l
    by (simp add: nameless_env_def fallback_env_def generateDeploymentWarnings_def)
  show ?thesis
    unfolding analyzeContract_def Let_def
    using w n by (simp add: d a t)
qed

subsection \<open>The structural extractor\<close>

text \<open>
  C7. The structural extractor returns an inventory for every source text: its five
  scanning loops end, and nothing in it throws. On the empty text all five sequences
  are empty. It reads nothing but the text (each call builds its own expressions,
  whose \<open>lastIndex\<close> starts at 0): whatever the environment, the file system and the
  flag of two runs on the same text, the inventories they yield are the same.
\<close>

theorem extractContractDetails_total:
  "(\<exists>d. extractContractDetails src = Some d)
   \<and> extractContractDetails [] =
       Some \<lparr>functionDecls = [], modifiers = [], stateVariables = [], events = [],
             importPaths = []\<rparr>
   \<and> (\<forall>e1 f1 u1 a1 g1 e2 f2 u2 a2 g2.
         analyzeContract e1 f1 src u1 = Some (Inr a1, g1)
         \<and> analyzeContract e2 f2 src u2 = Some (Inr a2, g2)
         \<longrightarrow> contractDetails a1 = contractDetails a2)"
proof -
  have "extractContractDetails [] =
       Some \<lparr>functionDecls = [], modifiers = [], stateVariables = [], events = [],
             importPaths = []\<rparr>"
    by code_simp
  moreover have "contractDetails a1 = contractDetails a2"
    if "analyzeContract e1 f1 src u1 = Some (Inr a1, g1)"
      and "analyzeContract e2 f2 src u2 = Some (Inr a2, g2)"
    for e1 f1 u1 a1 g1 e2 f2 u2 a2 g2
    using analyzeContract_Inr(3) [OF that(1)] analyzeContract_Inr(3) [OF that(2)] by simp
  ultimately show ?thesis using extract_total [of src] by blast
qed

theorem extractContractDetails_total_witness:
  "\<exists>a1 g1 a2 g2.
     analyzeContract fallback_env Map.empty withdraw_src False = Some (Inr a1, g1)
     \<and> analyzeContract slither_env [contractFile \<mapsto> ''old''] withdraw_src True = Some (Inr a2, g2)
     \<and> contractDetails a1 = contractDetails a2"
proof -
  from analyze_succeeds [OF concrete_envs_ok(1,2,3)] obtain a1 g1
    where 1: "analyzeContract fallback_env Map.empty withdraw_src False = Some (Inr a1, g1)"
    by blast
  from analyze_succeeds [OF concrete_envs_ok(7,8,9)] obtain a2 g2
    where 2: "analyzeContract slither_env [contractFile \<mapsto> ''old''] withdraw_src True
              = Some (Inr a2, g2)"
    by blast
  from extractContractDetails_total [of withdraw_src] 1 2
  have "contractDetails a1 = contractDetails a2" by blast
  with 1 2 show ?thesis by blast
qed

subsection \<open>Input validation\<close>

text \<open>
  C9. When the source text is missing or empty, the route answers with the
  validation error (status 400) and hands back the file system as it found it: the
  analysis is not entered, so nothing is extracted and no temporary file is written.
  A text that is not empty is never answered with that error: the analysis is
  entered and the answer is the record or a server error.
\<close>

theorem analyze_route_validation:
  "((src = None \<or> src = Some []) \<longrightarrow>
      analyze_route e f src u = Some (Status400 ''Source code is required'', f))
   \<and> (\<forall>s. src = Some s \<and> s \<noteq> [] \<longrightarrow>
        (\<exists>r g. analyze_route e f src u = Some (r, g) \<and> (\<forall>msg. r \<noteq> Status400 msg)))"
proof -
  have 1: "analyze_route e f src u = Some (Status400 ''Source code is required'', f)"
    if "src = None \<or> src = Some []"
    using that by (auto simp: analyze_route_def or_empty_def)
  have 2: "\<exists>r g. analyze_route e f src u = Some (r, g) \<and> (\<forall>msg. r \<noteq> Status400 msg)"
    if "src = Some s \<and> s \<noteq> []" for s
  proof -
    obtain r g where "analyzeContract e f s u = Some (r, g)"
      using analyzeContract_total by blast
    with that show ?thesis
      by (cases r) (simp_all add: analyze_route_def or_empty_def)
  qed
  from 1 2 show ?thesis by blast
qed

theorem analyze_route_validation_witness:
  "analyze_route fallback_env Map.empty None False
     = Some (Status400 ''Source code is required'', Map.empty)
   \<and> analyze_route fallback_env Map.empty (Some []) False
     = Some (Status400 ''Source code is required'', Map.empty)
   \<and> (\<exists>r g. analyze_route fallback_env Map.empty (Some withdraw_src) False = Some (r, g)
        \<and> (\<forall>msg. r \<noteq> Status400 msg))"
proof -
  have "withdraw_src \<noteq> []" by (simp add: withdraw_src_def)
  with analyze_route_validation [of None fallback_env Map.empty False]
    analyze_route_validation [of "Some []" fallback_env Map.empty False]
    analyze_route_validation [of "Some withdraw_src" fallback_env Map.empty False]
  show ?thesis by simp
qed

subsection \<open>Deployment warnings\<close>



lemma filter_critical_Inr:
  "filter_critical bs = Inr r \<Longrightarrow> \<forall>b \<in> set bs. name b \<noteq> None"
  by (induction bs arbitrary: r) (auto split: option.splits sum.splits)

text \<open>The builder returns its warnings only when every diagnostic has a name.\<close>

lemma gdw_Inr_named:
  "generateDeploymentWarnings bgs iss = Inr ws \<Longrightarrow> \<forall>b \<in> set bgs. name b \<noteq> None"
  unfolding generateDeploymentWarnings_def Let_def
  by (auto split: sum.splits dest: filter_critical_Inr)




subsection \<open>Self-destruct and the grade\<close>

lemma str_includes_lower:
  "str_includes s m \<Longrightarrow> str_includes (toLowerCase s) (toLowerCase m)"
  unfolding str_includes_def sublist_def by (fastforce simp: toLowerCase_append)

text \<open>Every text that contains \<open>selfdestruct\<close> has the kill-switch entry among its
  unsafe constructs.\<close>

lemma kill_switch_listed:
  assumes "str_includes src ''selfdestruct''"
  shows "''Kill Switch - Contract can be destroyed'' \<in> set (detectUnsafePatterns src)"
  using str_includes_lower [OF assms]
  by (simp add: detectUnsafePatterns_def Let_def markers_lower)

lemma manual_names_no_marker:
  "\<forall>n \<in> set manual_names.
     \<not> (str_includes (toLowerCase n) ''proxy'' \<or> str_includes (toLowerCase n) ''upgradeable''
        \<or> str_includes (toLowerCase n) ''mint'' \<or> str_includes (toLowerCase n) ''unrestricted''
        \<or> str_includes (toLowerCase n) ''suicide''
        \<or> str_includes (toLowerCase n) ''selfdestruct'')"
  by code_simp

text \<open>No name the heuristic detector gives carries an escalation marker: on its
  diagnostics the grade follows the score alone.\<close>

lemma manual_never_escalates:
  "computeAuditGrade score (detectManualVulnerabilities src) iss
     = (if score > 70 then ''C'' else if score > 40 then ''B'' else ''A'')"
proof -
  have "\<not> (str_includes (lower_name b) ''proxy'' \<or> str_includes (lower_name b) ''upgradeable''
        \<or> str_includes (lower_name b) ''mint'' \<or> str_includes (lower_name b) ''unrestricted''
        \<or> str_includes (lower_name b) ''suicide'' \<or> str_includes (lower_name b) ''selfdestruct'')"
    if "b \<in> set (detectManualVulnerabilities src)" for b
  proof -
    from manual_name_cases [OF that] obtain n where "n \<in> set manual_names" "name b = Some n"
      by blast
    with manual_names_no_marker show ?thesis
      by (simp add: lower_name_def or_empty_def)
  qed
  then show ?thesis
    unfolding computeAuditGrade_def Let_def list_ex_iff by auto
qed

text \<open>
  C4. The specification asks that a text with a \<open>selfdestruct\<close> call be graded C
  whatever its score. In the run below both tools yield nothing, so the heuristic
  detector reports the call under the name \<open>Self-Destruct Function\<close>; the grader looks
  for \<open>selfdestruct\<close> and \<open>suicide\<close> in the lower-cased name, and
  \<open>self-destruct function\<close> contains neither. The kill-switch entry is listed, the
  score is 26 and the grade is A.
\<close>

theorem selfdestruct_not_graded_C:
  "case analyzeContract fallback_env Map.empty kill_src False of
     Some (Inr a, g) \<Rightarrow>
       unsafePatterns a = [''Kill Switch - Contract can be destroyed'']
       \<and> map name (bugs a) = [Some ''Self-Destruct Function'']
       \<and> riskScore a = 26 \<and> auditGrade a = ''A''
   | _ \<Rightarrow> False"
  by code_simp

subsection \<open>The withdraw scenario\<close>

lemma abi_match_decl:
  "\<exists>more. rx_matches abiFunctionRegex (withdraw_src @ post) []
     = (''{ token.call(...) }'' @ post, [(2, []), (1, ''withdraw'')]) # more"
  by (simp add: abiFunctionRegex_def withdraw_src_def is_space_def is_word_def)

lemma rx_find_decl:
  "rx_find abiFunctionRegex k (withdraw_src @ post)
     = Some \<lparr>m_index = k, m_end = k + 29, m_groups = [(2, []), (1, ''withdraw'')]\<rparr>"
proof -
  obtain more where m: "rx_matches abiFunctionRegex (withdraw_src @ post) []
     = (''{ token.call(...) }'' @ post, [(2, []), (1, ''withdraw'')]) # more"
    using abi_match_decl by blast
  obtain x t where xt: "withdraw_src @ post = x # t"
    by (simp add: withdraw_src_def)
  have "length (withdraw_src @ post) - length (''{ token.call(...) }'' @ post) = 29"
    by (simp add: withdraw_src_def)
  with m xt show ?thesis by simp
qed

lemma substring_window:
  "substring (pre @ t) (int (length pre) - 50) (int (length pre)) = drop (length pre - 50) pre"
  by (simp add: substring_def Let_def min_def max_def nat_diff_distrib')

lemma substring_window100:
  "substring (pre @ t) (max 0 (int (length pre) - 100)) (int (length pre)) = drop (length pre - 100) pre"
  by (simp add: substring_def Let_def min_def max_def nat_diff_distrib')


lemma rx_find_leftmost:
  "j \<le> length s \<Longrightarrow> rx_matches r (drop j s) [] \<noteq> [] \<Longrightarrow>
     \<exists>m. rx_find r k s = Some m \<and> m_index m \<le> k + j
        \<and> (m_index m = k + j \<longrightarrow> rx_find r (k + j) (drop j s) = Some m)"
proof (induction s arbitrary: k j)
  case Nil
  then show ?case by (auto split: list.splits)
next
  case (Cons x t)
  show ?case
  proof (cases "rx_matches r (x # t) []")
    case (Cons q qs)
    obtain rest c where q: "q = (rest, c)" by (cases q)
    let ?m = "\<lparr>m_index = k, m_end = k + (length (x # t) - length rest), m_groups = c\<rparr>"
    from Cons q have f: "rx_find r k (x # t) = Some ?m" by simp
    have "m_index ?m = k + j \<longrightarrow> rx_find r (k + j) (drop j (x # t)) = Some ?m"
      using f by auto
    with f show ?thesis by auto
  next
    case Nil
    with Cons.prems obtain j' where j: "j = Suc j'" by (cases j) auto
    with Cons.prems have "j' \<le> length t" "rx_matches r (drop j' t) [] \<noteq> []" by auto
    from Cons.IH [OF this, of "Suc k"] Nil j show ?thesis by simp
  qed
qed

lemma rx_exec_leftmost:
  assumes "i \<le> p" "p \<le> length src" "rx_matches r (drop p src) [] \<noteq> []"
  shows "\<exists>m. rx_exec r src i = Some m \<and> m_index m \<le> p
        \<and> (m_index m = p \<longrightarrow> rx_find r p (drop p src) = Some m)"
proof -
  from assms have "p - i \<le> length (drop i src)" "rx_matches r (drop (p - i) (drop i src)) [] \<noteq> []"
    by simp_all
  from rx_find_leftmost [OF this, of i] assms(1,2) show ?thesis
    by (simp add: rx_exec_def)
qed

lemma exec_loop_cases:
  assumes "exec_loop r src i = Some ms"
  shows "(rx_exec r src i = None \<and> ms = [])
       \<or> (\<exists>m ms'. rx_exec r src i = Some m \<and> exec_loop r src (m_end m) = Some ms' \<and> ms = m # ms')"
  using assms by (subst (asm) exec_loop.simps) (auto split: option.splits simp: bind_eq_Some_conv)

lemma exec_loop_finds:
  assumes "exec_loop r src i = Some ms" "i \<le> p" "p \<le> length src"
    and "rx_matches r (drop p src) [] \<noteq> []"
    and "rx_find r p (drop p src) = Some mp"
    and "\<forall>m \<in> set ms. \<not> (m_index m < p \<and> p < m_end m)"
  shows "mp \<in> set ms"
  using assms(1,2,6)
proof (induction ms arbitrary: i)
  case Nil
  with exec_loop_cases [OF Nil.prems(1)] have "rx_exec r src i = None" by auto
  with rx_exec_leftmost [OF Nil.prems(2) assms(3,4)] show ?case by auto
next
  case (Cons m ms)
  from exec_loop_cases [OF Cons.prems(1)]
  have e: "rx_exec r src i = Some m" and l: "exec_loop r src (m_end m) = Some ms" by auto
  from rx_exec_leftmost [OF Cons.prems(2) assms(3,4)] e
  have le: "m_index m \<le> p" and eq: "m_index m = p \<longrightarrow> rx_find r p (drop p src) = Some m"
    by auto
  show ?case
  proof (cases "m_index m = p")
    case True
    with eq assms(5) show ?thesis by simp
  next
    case False
    with le Cons.prems(3) have "m_end m \<le> p" by auto
    from Cons.IH [OF l this] Cons.prems(3) show ?thesis by simp
  qed
qed


lemma manual_abi_lists_withdraw:
  assumes "\<not> str_includes (drop (length pre - 50) pre) ''internal''"
    and "\<not> runs_over (pre @ withdraw_src @ post) (length pre)"
  shows "\<exists>mut entries. generateManualABI (pre @ withdraw_src @ post) = Some entries
     \<and> AbiFunction ''withdraw'' [] [] mut \<in> set entries"
proof -
  let ?src = "pre @ withdraw_src @ post"
  let ?m = "\<lparr>m_index = length pre, m_end = length pre + 29,
              m_groups = [(2, []), (1, ''withdraw'')]\<rparr>"
  obtain fms where f: "exec_loop abiFunctionRegex ?src 0 = Some fms"
    using exec_loop_total [OF min_len_regexes(6)] by blast
  obtain es where e: "exec_loop abiEventRegex ?src 0 = Some es"
    using exec_loop_total [OF min_len_regexes(7)] by blast
  obtain vs where v: "exec_loop abiStateVarRegex ?src 0 = Some vs"
    using exec_loop_total [OF min_len_regexes(8)] by blast
  from assms(2) f have no: "\<forall>m \<in> set fms. \<not> (m_index m < length pre \<and> length pre < m_end m)"
    by (simp add: runs_over_def list_ex_iff)
  have d: "drop (length pre) ?src = withdraw_src @ post" by simp
  have ne: "rx_matches abiFunctionRegex (drop (length pre) ?src) [] \<noteq> []"
    unfolding d using abi_match_decl [of post] by auto
  have fd: "rx_find abiFunctionRegex (length pre) (drop (length pre) ?src) = Some ?m"
    unfolding d by (rule rx_find_decl)
  have "?m \<in> set fms"
    by (rule exec_loop_finds [OF f _ _ ne fd no]) simp_all
  moreover have "abi_function_entry ?src ?m
          = [AbiFunction ''withdraw'' [] [] (getStateMutability ?src (length pre))]"
    using assms(1)
    by (simp add: abi_function_entry_def match1_def group_def or_empty_def substring_window
        parseFunctionParams_def)
  ultimately have "AbiFunction ''withdraw'' [] [] (getStateMutability ?src (length pre))
      \<in> set (concat (map (abi_function_entry ?src) fms))"
    by force
  then show ?thesis
    by (simp add: generateManualABI_def f e v) blast
qed

lemma includes_in_context:
  "str_includes s m \<Longrightarrow> str_includes (pre @ s @ post) m"
  unfolding str_includes_def sublist_def by (metis append.assoc)

lemma withdraw_src_words:
  "str_includes (toLowerCase (pre @ withdraw_src @ post)) ''call''"
  "str_includes (toLowerCase (pre @ withdraw_src @ post)) ''external''"
proof -
  have "str_includes withdraw_src ''call''" "str_includes withdraw_src ''external''"
    by code_simp+
  from this [THEN includes_in_context, THEN str_includes_lower]
  have "str_includes (toLowerCase (pre @ withdraw_src @ post)) (toLowerCase ''call'')"
    "str_includes (toLowerCase (pre @ withdraw_src @ post)) (toLowerCase ''external'')"
    by blast+
  moreover have "toLowerCase ''call'' = ''call''" "toLowerCase ''external'' = ''external''"
    by code_simp+
  ultimately show "str_includes (toLowerCase (pre @ withdraw_src @ post)) ''call''"
    "str_includes (toLowerCase (pre @ withdraw_src @ post)) ''external''"
    by simp_all
qed

lemma reentrancy_reported:
  assumes "\<not> str_includes (toLowerCase (pre @ withdraw_src @ post)) ''reentrancyguard''"
  shows "\<exists>rest. detectManualVulnerabilities (pre @ withdraw_src @ post)
     = manual_bug ''Potential Reentrancy''
         ''External calls without reentrancy protection detected'' ''High'' ''Medium'' # rest"
  using assms withdraw_src_words [of pre post]
  by (simp add: detectManualVulnerabilities_def Let_def)

text \<open>The scenario with the declaration as the whole text: three heuristic diagnostics,
  the first of them the reentrancy entry, and one entry in the interface.\<close>

lemma withdraw_scenario_exact:
  "case analyzeContract fallback_env Map.empty withdraw_src False of
     Some (Inr a, g) \<Rightarrow>
       map name (bugs a) = [Some ''Potential Reentrancy'', Some ''Unchecked External Call'',
                            Some ''Potential Access Control Issue'']
       \<and> bug.severity (hd (bugs a)) = Some ''High'' \<and> func (hd (bugs a)) = ''Multiple''
       \<and> bug.line (hd (bugs a)) = Some 1
       \<and> abi a = [AbiFunction ''withdraw'' [] [] ''nonpayable'']
   | _ \<Rightarrow> False"
  by code_simp

text \<open>
  C8. Take a source text that contains the declaration
  \<open>function withdraw() external { token.call(...) }\<close> and no reentrancy-guard marker,
  in a run where the security tool yields nothing, the compiler path fails and the
  temporary file can be written and removed. The analysis returns a record whose
  security diagnostics include the entry \<open>Potential Reentrancy\<close> of severity High, with
  function \<open>Multiple\<close> and line 1. The synthesized interface has a function entry named
  \<open>withdraw\<close> when the 50 characters before the declaration do not contain \<open>internal\<close>
  and no earlier match of the function pattern runs over the start of the
  declaration. Each condition is needed: the heuristic drops a function when
  \<open>internal\<close> occurs within the 50 characters before its declaration, as \<open>internal_src\<close>
  shows, and a match that begins at an earlier \<open>function\<close> and has not met its closing
  parenthesis takes the declaration in, as \<open>swallow_src\<close> shows.
\<close>

theorem withdraw_scenario:
  assumes "slitherOut e = []" "compiled e = None" "\<not> writeFails e" "\<not> removeFails e"
    and "\<not> str_includes (toLowerCase (pre @ withdraw_src @ post)) ''reentrancyguard''"
  shows "\<exists>a g. analyzeContract e f (pre @ withdraw_src @ post) u = Some (Inr a, g)
     \<and> (\<exists>b \<in> set (bugs a). name b = Some ''Potential Reentrancy''
            \<and> bug.severity b = Some ''High'' \<and> func b = ''Multiple'' \<and> bug.line b = Some 1)
     \<and> (\<not> str_includes (drop (length pre - 50) pre) ''internal''
          \<and> \<not> runs_over (pre @ withdraw_src @ post) (length pre)
        \<longrightarrow> (\<exists>ins outs mut. AbiFunction ''withdraw'' ins outs mut \<in> set (abi a)))"
proof -
  let ?src = "pre @ withdraw_src @ post"
  from assms(1) have "\<forall>b \<in> set (slitherOut e). name b \<noteq> None" by simp
  from analyze_succeeds [OF assms(3,4) this] obtain a g
    where r: "analyzeContract e f ?src u = Some (Inr a, g)" by blast
  obtain rest where "detectManualVulnerabilities ?src
     = manual_bug ''Potential Reentrancy''
         ''External calls without reentrancy protection detected'' ''High'' ''Medium'' # rest"
    using reentrancy_reported [OF assms(5)] by blast
  with analyzeContract_Inr(1) [OF r] assms(1)
  have 1: "\<exists>b \<in> set (bugs a). name b = Some ''Potential Reentrancy''
            \<and> bug.severity b = Some ''High'' \<and> func b = ''Multiple'' \<and> bug.line b = Some 1"
    by (simp add: final_bugs_def manual_bug_def)
  have 2: "\<exists>ins outs mut. AbiFunction ''withdraw'' ins outs mut \<in> set (abi a)"
    if "\<not> str_includes (drop (length pre - 50) pre) ''internal''
          \<and> \<not> runs_over ?src (length pre)"
  proof -
    from that manual_abi_lists_withdraw [of pre post] obtain mut entries
      where "generateManualABI ?src = Some entries"
        "AbiFunction ''withdraw'' [] [] mut \<in> set entries"
      by blast
    with analyzeContract_Inr(4) [OF r] assms(2)
    have "AbiFunction ''withdraw'' [] [] mut \<in> set (abi a)"
      by (simp add: generateABI_def)
    then show ?thesis by blast
  qed
  from r 1 2 show ?thesis by blast
qed

theorem withdraw_scenario_witness:
  "\<exists>a g. analyzeContract fallback_env Map.empty
            (''contract V { function deposit() public { } '' @ withdraw_src @ '' }'') False
          = Some (Inr a, g)
     \<and> (\<exists>b \<in> set (bugs a). name b = Some ''Potential Reentrancy''
            \<and> bug.severity b = Some ''High'' \<and> func b = ''Multiple'' \<and> bug.line b = Some 1)
     \<and> (\<exists>ins outs mut. AbiFunction ''withdraw'' ins outs mut \<in> set (abi a))"
proof -
  let ?pre = "''contract V { function deposit() public { } ''"
  have 1: "\<not> str_includes (toLowerCase (?pre @ withdraw_src @ '' }'')) ''reentrancyguard''"
    by code_simp
  have 2: "\<not> str_includes (drop (length ?pre - 50) ?pre) ''internal''"
    by code_simp
  have 3: "\<not> runs_over (?pre @ withdraw_src @ '' }'') (length ?pre)"
    by code_simp
  from withdraw_scenario [OF concrete_envs_ok(4,6,1,2) 1, of Map.empty False] 2 3
  show ?thesis by blast
qed

theorem withdraw_scenario_counterexample:
  "str_includes internal_src withdraw_src
   \<and> \<not> str_includes (toLowerCase internal_src) ''reentrancyguard''
   \<and> \<not> runs_over internal_src 34
   \<and> str_includes swallow_src withdraw_src
   \<and> \<not> str_includes (toLowerCase swallow_src) ''reentrancyguard''
   \<and> \<not> str_includes (take 20 swallow_src) ''internal''
   \<and> slitherOut fallback_env = [] \<and> compiled fallback_env = None
   \<and> (case analyzeContract fallback_env Map.empty internal_src False of
        Some (Inr a, g) \<Rightarrow>
          map name (bugs a) = [Some ''Potential Reentrancy'', Some ''Unchecked External Call'',
                               Some ''Potential Integer Overflow'',
                               Some ''Potential Access Control Issue'']
          \<and> abi a = []
      | _ \<Rightarrow> False)
   \<and> (case analyzeContract fallback_env Map.empty swallow_src False of
        Some (Inr a, g) \<Rightarrow>
          name (hd (bugs a)) = Some ''Potential Reentrancy''
          \<and> map abi_name (abi a) = [''f'']
      | _ \<Rightarrow> False)"
  by code_simp

text \<open>In \<open>internal_src\<close> the declaration starts at index 34 and the window before it
  holds \<open>internal\<close>; in \<open>swallow_src\<close> it starts at index 20 and the match of \<open>f\<close> runs
  over it.\<close>

lemma provisos_violated:
  "drop 34 internal_src = withdraw_src @ '' }''"
  "str_includes (drop (34 - 50) (take 34 internal_src)) ''internal''"
  "drop 20 swallow_src = withdraw_src"
  "runs_over swallow_src 20"
  by code_simp+

end
